theory Spec2Isabelle
  imports Main "HOL-Library.AList" "HOL-Library.Multiset"
begin

section \<open>The optimization-rule matcher: \<open>OptimizationRuleModel.matchByRules\<close>\<close>

text \<open>
  The source is the static method \<^verbatim>\<open>matchByRules(rules, context)\<close> of the TypeScript class
  \<^verbatim>\<open>OptimizationRuleModel\<close>. It is a synchronous function without I/O. The model below
  follows it statement by statement:
  \<^item> the first loop groups the enabled rules in the plain object \<^verbatim>\<open>rulesByModel\<close>,
  \<^item> \<^verbatim>\<open>Object.entries\<close> enumerates the groups,
  \<^item> the nested loops return the key of the first group whose rules all pass.

  Two facts of JavaScript matter for a plain object \<^verbatim>\<open>{}\<close> that is used as a map with
  arbitrary string keys, and both are part of the model:
  \<^item> a property read \<^verbatim>\<open>obj[key]\<close> falls back to \<^verbatim>\<open>Object.prototype\<close> when \<^verbatim>\<open>obj\<close> has no own
    property \<^verbatim>\<open>key\<close> (so \<^verbatim>\<open>rulesByModel["constructor"]\<close> is a function, not \<^verbatim>\<open>undefined\<close>);
  \<^item> \<^verbatim>\<open>Object.entries\<close> lists own string keys that are array indices first, in ascending
    numeric order, and only then the other keys in the order of their creation.
\<close>

subsection \<open>Data model\<close>

datatype entityType = Organization | Team

text \<open>
  Modelled from the spec: the types \<^verbatim>\<open>ContentLengthConditions\<close> and \<^verbatim>\<open>ToolPresenceConditions\<close>
  are imported from \<^verbatim>\<open>@/types\<close>, which is not among the source files. The spec gives the
  shapes \<^verbatim>\<open>{ maxLength: integer }\<close> and \<^verbatim>\<open>{ hasTools: boolean }\<close>. The source reads the
  payload through unchecked casts (\<^verbatim>\<open>rule.conditions as ContentLengthConditions\<close>), so the payload
  is one object on which either field may be absent; \<open>None\<close> is what a read of an absent
  field yields, \<^verbatim>\<open>undefined\<close>.
\<close>

record conditions =
  maxLength :: "int option"
  hasTools :: "bool option"

text \<open>
  Modelled from the spec: the type \<^verbatim>\<open>OptimizationRule\<close> is imported from \<^verbatim>\<open>@/types\<close> as well.
  The fields are those of the spec's data model; \<^verbatim>\<open>matchByRules\<close> reads \<^verbatim>\<open>enabled\<close>,
  \<^verbatim>\<open>targetModel\<close>, \<^verbatim>\<open>ruleType\<close> and \<^verbatim>\<open>conditions\<close>. The field \<^verbatim>\<open>id\<close> is named \<open>ruleId\<close> here.
  \<^verbatim>\<open>ruleType\<close> is kept as the string the source compares it with.
\<close>

record OptimizationRule =
  ruleId :: string
  entityType :: entityType
  entityId :: string
  provider :: string
  ruleType :: string
  conditions :: conditions
  targetModel :: string
  enabled :: bool

text \<open>
  The parameter \<^verbatim>\<open>context: { tokenCount: number; hasTools: boolean }\<close>. Its field
  \<^verbatim>\<open>hasTools\<close> is named \<open>contextHasTools\<close>, since \<open>hasTools\<close> is the payload's field.
  Token counts and length bounds are integers, on which the comparison of JavaScript
  numbers is the comparison of integers.
\<close>

record RequestContext =
  tokenCount :: int
  contextHasTools :: bool

text \<open>The only exception the function can throw: calling \<^verbatim>\<open>.push\<close> on a value that has none.\<close>

datatype error = TypeError

subsection \<open>JavaScript operators on possibly absent operands\<close>

text \<open>
  \<^verbatim>\<open>a > b\<close>: with \<^verbatim>\<open>b\<close> \<^verbatim>\<open>undefined\<close> the operand converts to NaN and the comparison is false.
\<close>

fun greaterThan :: "int \<Rightarrow> int option \<Rightarrow> bool" where
  "greaterThan a None = False"
| "greaterThan a (Some b) = (a > b)"

text \<open>\<^verbatim>\<open>a !== b\<close>: a boolean is never strictly equal to \<^verbatim>\<open>undefined\<close>.\<close>

fun strictNotEqual :: "bool \<Rightarrow> bool option \<Rightarrow> bool" where
  "strictNotEqual a None = True"
| "strictNotEqual a (Some b) = (a \<noteq> b)"

subsection \<open>The object \<^verbatim>\<open>rulesByModel\<close>\<close>

text \<open>
  The own properties of \<^verbatim>\<open>rulesByModel\<close>, in the order of their creation. Keys are distinct.
\<close>

type_synonym rulesByModel = "(string \<times> OptimizationRule list) list"

text \<open>
  The properties every plain object inherits from \<^verbatim>\<open>Object.prototype\<close>. Each is a function,
  but for \<^verbatim>\<open>__proto__\<close>, which reads as the prototype object itself: all are truthy and none
  has a \<^verbatim>\<open>push\<close>.
\<close>

definition objectPrototypeKeys :: "string list" where
  "objectPrototypeKeys =
     [''constructor'', ''hasOwnProperty'', ''isPrototypeOf'', ''propertyIsEnumerable'',
      ''toLocaleString'', ''toString'', ''valueOf'', ''__proto__'',
      ''__defineGetter__'', ''__defineSetter__'', ''__lookupGetter__'', ''__lookupSetter__'']"

datatype propertyValue = Undefined | Inherited | Array "OptimizationRule list"

text \<open>The read \<^verbatim>\<open>rulesByModel[model]\<close>: an own property first, then the prototype.\<close>

definition getProperty :: "rulesByModel \<Rightarrow> string \<Rightarrow> propertyValue" where
  "getProperty obj key =
     (case map_of obj key of
        Some arr \<Rightarrow> Array arr
      | None \<Rightarrow> if key \<in> set objectPrototypeKeys then Inherited else Undefined)"

text \<open>
  One pass of the first loop's body:
  \<^verbatim>\<open>
      if (!rule.enabled) continue;
      const model = rule.targetModel;
      if (!rulesByModel[model]) {
        rulesByModel[model] = [];
      }
      rulesByModel[model].push(rule);
  \<close>
  Only \<^verbatim>\<open>undefined\<close> is falsy among the values a read can give. An assignment to a new key
  appends an own property; \<^verbatim>\<open>push\<close> on an array appends in place; \<^verbatim>\<open>push\<close> on an inherited
  value is a call of \<^verbatim>\<open>undefined\<close> and throws.
\<close>

definition addRule :: "rulesByModel \<Rightarrow> OptimizationRule \<Rightarrow> error + rulesByModel" where
  "addRule obj rule =
     (if \<not> enabled rule then Inr obj
      else
        let model = targetModel rule;
            obj1 = (if getProperty obj model = Undefined then AList.update model [] obj else obj)
        in (case getProperty obj1 model of
              Array arr \<Rightarrow> Inr (AList.update model (arr @ [rule]) obj1)
            | Inherited \<Rightarrow> Inl TypeError
            | Undefined \<Rightarrow> Inl TypeError))"

text \<open>The first loop, \<^verbatim>\<open>for (const rule of rules)\<close>; an exception ends it.\<close>

fun groupRules :: "rulesByModel \<Rightarrow> OptimizationRule list \<Rightarrow> error + rulesByModel" where
  "groupRules obj [] = Inr obj"
| "groupRules obj (rule # rules) =
     (case addRule obj rule of
        Inl e \<Rightarrow> Inl e
      | Inr obj' \<Rightarrow> groupRules obj' rules)"

subsection \<open>\<^verbatim>\<open>Object.entries\<close>\<close>

definition isDigit :: "char \<Rightarrow> bool" where
  "isDigit c = (48 \<le> (of_char c :: int) \<and> (of_char c :: int) \<le> 57)"

definition decimalValue :: "string \<Rightarrow> int" where
  "decimalValue s = foldl (\<lambda>n c. 10 * n + ((of_char c :: int) - 48)) 0 s"

text \<open>
  An array index is the canonical decimal string of an integer from 0 to \<open>2^32 - 2\<close>
  (4294967294): digits only, no leading zero unless the string is \<^verbatim>\<open>"0"\<close>.
\<close>

definition isArrayIndex :: "string \<Rightarrow> bool" where
  "isArrayIndex s =
     (s \<noteq> [] \<and> list_all isDigit s \<and> (s = ''0'' \<or> hd s \<noteq> CHR ''0'') \<and>
      decimalValue s < 4294967295)"

text \<open>
  The own enumerable string-keyed properties in the order of \<^verbatim>\<open>OrdinaryOwnPropertyKeys\<close>:
  array indices ascending, then the remaining keys in creation order.
\<close>

definition Object_entries :: "rulesByModel \<Rightarrow> (string \<times> OptimizationRule list) list" where
  "Object_entries obj =
     sort_key (\<lambda>kv. decimalValue (fst kv)) (filter (\<lambda>kv. isArrayIndex (fst kv)) obj) @
     filter (\<lambda>kv. \<not> isArrayIndex (fst kv)) obj"

subsection \<open>The matching loops\<close>

text \<open>
  The test of one rule in the inner loop: \<open>True\<close> where the source sets
  \<^verbatim>\<open>match = false\<close> and breaks. A rule of any other type takes neither branch.
\<close>

definition ruleFails :: "RequestContext \<Rightarrow> OptimizationRule \<Rightarrow> bool" where
  "ruleFails ctx rule =
     (if ruleType rule = ''content_length''
      then greaterThan (tokenCount ctx) (maxLength (conditions rule))
      else if ruleType rule = ''tool_presence''
      then strictNotEqual (contextHasTools ctx) (hasTools (conditions rule))
      else False)"

text \<open>
  The inner loop \<^verbatim>\<open>for (const rule of modelRules)\<close>: the value of \<^verbatim>\<open>match\<close> when it ends.
  The \<^verbatim>\<open>break\<close> is the branch that does not recurse.
\<close>

fun groupMatches :: "RequestContext \<Rightarrow> OptimizationRule list \<Rightarrow> bool" where
  "groupMatches ctx [] = True"
| "groupMatches ctx (rule # modelRules) =
     (if ruleFails ctx rule then False else groupMatches ctx modelRules)"

text \<open>
  The outer loop over the entries: \<^verbatim>\<open>if (match) return model\<close>, and \<^verbatim>\<open>return null\<close> after it.
\<close>

fun firstMatch :: "RequestContext \<Rightarrow> (string \<times> OptimizationRule list) list \<Rightarrow> string option" where
  "firstMatch ctx [] = None"
| "firstMatch ctx ((model, modelRules) # entries) =
     (if groupMatches ctx modelRules then Some model else firstMatch ctx entries)"

text \<open>
  \<^verbatim>\<open>matchByRules\<close>: \<open>Inr None\<close> is the returned \<^verbatim>\<open>null\<close>, \<open>Inr (Some m)\<close> the returned model,
  \<open>Inl TypeError\<close> the exception.
\<close>

definition matchByRules :: "OptimizationRule list \<Rightarrow> RequestContext \<Rightarrow> error + string option" where
  "matchByRules rules ctx =
     (case groupRules [] rules of
        Inl e \<Rightarrow> Inl e
      | Inr obj \<Rightarrow> Inr (firstMatch ctx (Object_entries obj)))"

subsection \<open>Notions used to state the properties\<close>

text \<open>The distinct elements of a list in the order of their first occurrence.\<close>

fun encounterOrder :: "'a list \<Rightarrow> 'a list" where
  "encounterOrder [] = []"
| "encounterOrder (x # xs) = x # filter (\<lambda>y. y \<noteq> x) (encounterOrder xs)"

text \<open>
  The condition group of a target model (the spec's glossary): all enabled rules of the
  input that share the target model, in input order.
\<close>

definition conditionGroup :: "string \<Rightarrow> OptimizationRule list \<Rightarrow> OptimizationRule list" where
  "conditionGroup m rules = filter (\<lambda>r. targetModel r = m) (filter enabled rules)"

text \<open>The order in which \<^verbatim>\<open>Object.entries\<close> lists keys that were created in the order \<open>ks\<close>.\<close>

definition entriesOrder :: "string list \<Rightarrow> string list" where
  "entriesOrder ks =
     sort_key decimalValue (filter isArrayIndex ks) @ filter (\<lambda>k. \<not> isArrayIndex k) ks"

text \<open>Some enabled rule targets a name that plain objects inherit.\<close>

definition inheritedTarget :: "OptimizationRule list \<Rightarrow> bool" where
  "inheritedTarget rules =
     list_ex (\<lambda>r. enabled r \<and> targetModel r \<in> set objectPrototypeKeys) rules"

text \<open>Some enabled rule targets a name that is an array index.\<close>

definition indexTarget :: "OptimizationRule list \<Rightarrow> bool" where
  "indexTarget rules = list_ex (\<lambda>r. enabled r \<and> isArrayIndex (targetModel r)) rules"

text \<open>The object the first loop builds when it does not throw.\<close>

definition grouped :: "OptimizationRule list \<Rightarrow> rulesByModel" where
  "grouped rules =
     map (\<lambda>m. (m, conditionGroup m rules))
       (encounterOrder (map targetModel (filter enabled rules)))"

text \<open>
  Group \<open>a\<close> is encountered before group \<open>b\<close>: an enabled rule targeting \<open>a\<close> stands in
  the input before the first enabled rule targeting \<open>b\<close>.
\<close>

definition encounteredBefore :: "string \<Rightarrow> string \<Rightarrow> OptimizationRule list \<Rightarrow> bool" where
  "encounteredBefore a b rules =
     (a \<in> set (takeWhile (\<lambda>k. k \<noteq> b) (map targetModel (filter enabled rules))) \<and>
      b \<in> set (map targetModel (filter enabled rules)))"

subsection \<open>Example inputs\<close>

definition exampleRule :: "string \<Rightarrow> string \<Rightarrow> conditions \<Rightarrow> bool \<Rightarrow> OptimizationRule" where
  "exampleRule model type payload on =
     \<lparr>ruleId = ''rule'', entityType = Organization, entityId = ''org'', provider = ''openai'',
      ruleType = type, conditions = payload, targetModel = model, enabled = on\<rparr>"

text \<open>The payloads \<^verbatim>\<open>{maxLength: n}\<close> and \<^verbatim>\<open>{hasTools: b}\<close>.\<close>

definition contentLength :: "int \<Rightarrow> conditions" where
  "contentLength n = \<lparr>maxLength = Some n, hasTools = None\<rparr>"

definition toolPresence :: "bool \<Rightarrow> conditions" where
  "toolPresence b = \<lparr>maxLength = None, hasTools = Some b\<rparr>"

section \<open>What the two loops compute\<close>

lemma set_encounterOrder: "set (encounterOrder xs) = set xs"
  by (induction xs) auto

lemma distinct_encounterOrder: "distinct (encounterOrder xs)"
  by (induction xs) (auto simp: set_encounterOrder)

lemma encounterOrder_snoc:
  "encounterOrder (xs @ [x]) = (if x \<in> set xs then encounterOrder xs else encounterOrder xs @ [x])"
  by (induction xs) (auto simp: set_encounterOrder)

lemma map_of_keyed: "map_of (map (\<lambda>k. (k, f k)) ks) k = (if k \<in> set ks then Some (f k) else None)"
  by (induction ks) auto

lemma update_keyed:
  "distinct ks \<Longrightarrow>
   AList.update k v (map (\<lambda>k'. (k', f k')) ks) =
     (if k \<in> set ks then map (\<lambda>k'. (k', if k' = k then v else f k')) ks
      else map (\<lambda>k'. (k', f k')) ks @ [(k, v)])"
  by (induction ks) auto

lemma update_last:
  "k \<notin> fst ` set al \<Longrightarrow> AList.update k v (al @ [(k, w)]) = al @ [(k, v)]"
  by (induction al) auto

lemma groupRules_append:
  "groupRules obj (xs @ ys) =
     (case groupRules obj xs of Inl e \<Rightarrow> Inl e | Inr obj' \<Rightarrow> groupRules obj' ys)"
  by (induction xs arbitrary: obj) (auto split: sum.splits)

lemma getProperty_grouped:
  "getProperty (grouped rules) m =
     (if m \<in> targetModel ` set (filter enabled rules) then Array (conditionGroup m rules)
      else if m \<in> set objectPrototypeKeys then Inherited else Undefined)"
  by (simp add: getProperty_def grouped_def map_of_keyed set_encounterOrder)

lemma addRule_disabled: "\<not> enabled r \<Longrightarrow> addRule obj r = Inr obj"
  by (simp add: addRule_def)

lemma grouped_snoc_disabled: "\<not> enabled r \<Longrightarrow> grouped (rs @ [r]) = grouped rs"
  by (simp add: grouped_def conditionGroup_def)

text \<open>The first enabled rule with an inherited target makes \<^verbatim>\<open>push\<close> throw.\<close>

lemma addRule_grouped_inherited:
  assumes "enabled r" "targetModel r \<in> set objectPrototypeKeys" "\<not> inheritedTarget rs"
  shows "addRule (grouped rs) r = Inl TypeError"
proof -
  have "targetModel r \<notin> targetModel ` set (filter enabled rs)"
    using assms by (auto simp: inheritedTarget_def list_ex_iff)
  then have "getProperty (grouped rs) (targetModel r) = Inherited"
    using assms(2) by (simp add: getProperty_grouped)
  then show ?thesis using assms(1) by (simp add: addRule_def)
qed

text \<open>Any other enabled rule joins its group, or opens a new last one.\<close>

lemma addRule_grouped:
  assumes "enabled r" "targetModel r \<notin> set objectPrototypeKeys"
  shows "addRule (grouped rs) r = Inr (grouped (rs @ [r]))"
proof (cases "targetModel r \<in> targetModel ` set (filter enabled rs)")
  case True
  then have g: "getProperty (grouped rs) (targetModel r) = Array (conditionGroup (targetModel r) rs)"
    by (simp add: getProperty_grouped)
  have "AList.update (targetModel r) (conditionGroup (targetModel r) rs @ [r]) (grouped rs)
        = grouped (rs @ [r])"
    using True assms(1) unfolding grouped_def
    by (simp add: update_keyed distinct_encounterOrder set_encounterOrder encounterOrder_snoc
        conditionGroup_def)
  then show ?thesis using g assms(1) by (simp add: addRule_def)
next
  case False
  then have g: "getProperty (grouped rs) (targetModel r) = Undefined"
    using assms(2) by (simp add: getProperty_grouped)
  have e: "conditionGroup (targetModel r) rs = []"
    unfolding conditionGroup_def filter_empty_conv using False by (metis imageI)
  have u1: "AList.update (targetModel r) [] (grouped rs) = grouped rs @ [(targetModel r, [])]"
    using False unfolding grouped_def
    by (simp add: update_keyed distinct_encounterOrder set_encounterOrder)
  have g1: "getProperty (grouped rs @ [(targetModel r, [])]) (targetModel r) = Array []"
    using False by (simp add: getProperty_def grouped_def map_of_keyed set_encounterOrder map_add_def
        split: option.splits)
  have u2: "AList.update (targetModel r) [r] (grouped rs @ [(targetModel r, [])]) = grouped (rs @ [r])"
    using False assms(1) e unfolding grouped_def
    by (simp add: encounterOrder_snoc set_encounterOrder conditionGroup_def update_last image_iff)
  show ?thesis using g g1 u1 u2 assms(1) by (simp add: addRule_def)
qed

lemma inheritedTarget_snoc:
  "inheritedTarget (rs @ [r]) =
     (inheritedTarget rs \<or> enabled r \<and> targetModel r \<in> set objectPrototypeKeys)"
  by (auto simp: inheritedTarget_def)

lemma groupRules_grouped:
  "groupRules [] rules = (if inheritedTarget rules then Inl TypeError else Inr (grouped rules))"
proof (induction rules rule: rev_induct)
  case Nil
  show ?case by (simp add: inheritedTarget_def grouped_def)
next
  case (snoc r rs)
  show ?case
  proof (cases "inheritedTarget rs")
    case True
    then show ?thesis using snoc by (simp add: groupRules_append inheritedTarget_snoc)
  next
    case False
    note clean = this
    show ?thesis
    proof (cases "enabled r")
      case False
      then show ?thesis using snoc clean
        by (simp add: groupRules_append inheritedTarget_snoc addRule_disabled grouped_snoc_disabled)
    next
      case True
      show ?thesis
      proof (cases "targetModel r \<in> set objectPrototypeKeys")
        case True
        then show ?thesis using snoc clean \<open>enabled r\<close>
          by (simp add: groupRules_append inheritedTarget_snoc addRule_grouped_inherited)
      next
        case False
        then show ?thesis using snoc clean \<open>enabled r\<close>
          by (simp add: groupRules_append inheritedTarget_snoc addRule_grouped)
      qed
    qed
  qed
qed

lemma insort_key_map:
  "insort_key f (h x) (map h xs) = map h (insort_key (\<lambda>y. f (h y)) x xs)"
  by (induction xs) auto

lemma sort_key_map: "sort_key f (map h xs) = map h (sort_key (\<lambda>y. f (h y)) xs)"
  by (induction xs) (auto simp: insort_key_map)

lemma Object_entries_keyed:
  "Object_entries (map (\<lambda>m. (m, g m)) ks) = map (\<lambda>m. (m, g m)) (entriesOrder ks)"
  by (simp add: Object_entries_def entriesOrder_def filter_map sort_key_map comp_def)

lemma firstMatch_keyed:
  "firstMatch ctx (map (\<lambda>m. (m, g m)) ks) = find (\<lambda>m. groupMatches ctx (g m)) ks"
  by (induction ks) auto

lemma groupMatches_iff: "groupMatches ctx rs = (\<forall>r\<in>set rs. \<not> ruleFails ctx r)"
  by (induction rs) auto

text \<open>
  The function in closed form: it throws exactly when an enabled rule targets an
  inherited name; otherwise it returns the first key, in the order of
  \<^verbatim>\<open>Object.entries\<close>, whose condition group passes.
\<close>

lemma matchByRules_eq:
  "matchByRules rules ctx =
     (if inheritedTarget rules then Inl TypeError
      else Inr (find (\<lambda>m. groupMatches ctx (conditionGroup m rules))
                  (entriesOrder (encounterOrder (map targetModel (filter enabled rules))))))"
  by (simp add: matchByRules_def groupRules_grouped)
     (simp add: grouped_def Object_entries_keyed firstMatch_keyed)

lemma inheritedTarget_filter: "inheritedTarget (filter enabled rules) = inheritedTarget rules"
  by (auto simp: inheritedTarget_def list_ex_iff)

lemma conditionGroup_filter: "conditionGroup m (filter enabled rules) = conditionGroup m rules"
  by (simp add: conditionGroup_def)

lemma matchByRules_cong:
  assumes "inheritedTarget rs = inheritedTarget rs'"
    and "encounterOrder (map targetModel (filter enabled rs)) =
         encounterOrder (map targetModel (filter enabled rs'))"
    and "\<And>m. groupMatches ctx (conditionGroup m rs) = groupMatches ctx (conditionGroup m rs')"
  shows "matchByRules rs ctx = matchByRules rs' ctx"
  using assms by (simp add: matchByRules_eq)

lemma encounterOrder_append:
  "encounterOrder (xs @ ys) = encounterOrder xs @ filter (\<lambda>y. y \<notin> set xs) (encounterOrder ys)"
proof (induction xs)
  case Nil
  show ?case by simp
next
  case (Cons a xs)
  have "filter (\<lambda>y. y \<noteq> a) (filter (\<lambda>y. y \<notin> set xs) (encounterOrder ys)) =
        filter (\<lambda>y. y \<noteq> a \<and> y \<notin> set xs) (encounterOrder ys)"
    by (auto intro: filter_cong)
  then show ?case using Cons by simp
qed

lemma encounterOrder_seen:
  assumes "x \<in> set xs"
  shows "encounterOrder (xs @ x # ys) = encounterOrder (xs @ ys)"
proof -
  have "filter (\<lambda>y. y \<notin> set xs) (filter (\<lambda>y. y \<noteq> x) (encounterOrder ys)) =
        filter (\<lambda>y. y \<notin> set xs) (encounterOrder ys)"
    using assms by (auto intro: filter_cong)
  then show ?thesis using assms by (simp add: encounterOrder_append)
qed

lemma groupMatches_conditionGroup:
  "groupMatches ctx (conditionGroup m rules) =
     (\<forall>r\<in>set rules. enabled r \<and> targetModel r = m \<longrightarrow> \<not> ruleFails ctx r)"
  by (auto simp: groupMatches_iff conditionGroup_def)

lemma inheritedTarget_iff:
  "inheritedTarget rules = (\<exists>r\<in>set rules. enabled r \<and> targetModel r \<in> set objectPrototypeKeys)"
  by (simp add: inheritedTarget_def list_ex_iff)

text \<open>A rule can be taken out of the list when its group was opened before it and
  the rule passes, or occurs before already.\<close>

lemma matchByRules_remove:
  assumes "enabled r \<Longrightarrow> \<exists>r'\<in>set xs. enabled r' \<and> targetModel r' = targetModel r"
    and "ruleFails ctx r \<Longrightarrow> r \<in> set xs"
  shows "matchByRules (xs @ r # ys) ctx = matchByRules (xs @ ys) ctx"
proof (rule matchByRules_cong)
  show "inheritedTarget (xs @ r # ys) = inheritedTarget (xs @ ys)"
    using assms(1) unfolding inheritedTarget_iff by simp (metis Un_iff)
  show "encounterOrder (map targetModel (filter enabled (xs @ r # ys))) =
        encounterOrder (map targetModel (filter enabled (xs @ ys)))"
  proof (cases "enabled r")
    case True
    then obtain r' where "r' \<in> set xs" "enabled r'" "targetModel r' = targetModel r"
      using assms(1) by blast
    then have "r' \<in> set (filter enabled xs)" by simp
    then have "targetModel r' \<in> set (map targetModel (filter enabled xs))"
      by (simp only: set_map) (rule imageI)
    then have "targetModel r \<in> set (map targetModel (filter enabled xs))"
      using \<open>targetModel r' = targetModel r\<close> by simp
    then show ?thesis using True by (simp add: encounterOrder_seen)
  next
    case False
    then show ?thesis by simp
  qed
  show "groupMatches ctx (conditionGroup m (xs @ r # ys)) =
        groupMatches ctx (conditionGroup m (xs @ ys))" for m
    using assms(2) unfolding groupMatches_conditionGroup by auto
qed

lemma matchByRules_single:
  assumes "enabled r" "targetModel r \<notin> set objectPrototypeKeys"
  shows "matchByRules [r] ctx = Inr (if ruleFails ctx r then None else Some (targetModel r))"
  using assms
  by (simp add: matchByRules_eq inheritedTarget_iff entriesOrder_def conditionGroup_def)

lemma find_Some_set: "find P xs = Some x \<Longrightarrow> x \<in> set xs \<and> P x"
  by (induction xs) (auto split: if_splits)

lemma set_entriesOrder: "set (entriesOrder ks) = set ks"
  by (auto simp: entriesOrder_def)

lemma matchByRules_Some:
  assumes "matchByRules rules ctx = Inr (Some m)"
  shows "(\<exists>r\<in>set rules. enabled r \<and> targetModel r = m) \<and>
         groupMatches ctx (conditionGroup m rules)"
proof -
  have "find (\<lambda>m. groupMatches ctx (conditionGroup m rules))
          (entriesOrder (encounterOrder (map targetModel (filter enabled rules)))) = Some m"
    using assms by (simp add: matchByRules_eq split: if_splits)
  from find_Some_set [OF this] show ?thesis
    by (auto simp: set_entriesOrder set_encounterOrder)
qed

lemma matchByRules_throws: "(matchByRules rules ctx = Inl e) = inheritedTarget rules"
  by (cases e) (simp add: matchByRules_eq)

lemma find_filter: "(\<And>y. P y \<Longrightarrow> Q y) \<Longrightarrow> find P (filter Q xs) = find P xs"
  by (induction xs) auto

lemma find_encounterOrder: "find P (encounterOrder xs) = find P xs"
proof (induction xs)
  case Nil
  show ?case by simp
next
  case (Cons x xs)
  show ?case
  proof (cases "P x")
    case True
    then show ?thesis by simp
  next
    case False
    then have "find P (filter (\<lambda>y. y \<noteq> x) (encounterOrder xs)) = find P (encounterOrder xs)"
      by (intro find_filter) auto
    then show ?thesis using False Cons by simp
  qed
qed

lemma find_not_later:
  "a \<in> set (takeWhile (\<lambda>k. k \<noteq> b) xs) \<Longrightarrow> P a \<Longrightarrow> find P xs \<noteq> Some b"
  by (induction xs) (auto split: if_splits)

lemma find_first:
  "a \<in> set xs \<Longrightarrow> P a \<Longrightarrow> (\<And>c. c \<in> set (takeWhile (\<lambda>k. k \<noteq> a) xs) \<Longrightarrow> \<not> P c) \<Longrightarrow>
   find P xs = Some a"
proof (induction xs)
  case Nil
  then show ?case by simp
next
  case (Cons x xs)
  show ?case
  proof (cases "x = a")
    case True
    then show ?thesis using Cons.prems(2) by simp
  next
    case False
    then have nx: "\<not> P x" using Cons.prems(3) [of x] by simp
    have "find P xs = Some a"
      using Cons.prems False by (intro Cons.IH) auto
    then show ?thesis using nx by simp
  qed
qed

lemma indexTarget_iff:
  "indexTarget rules = (\<exists>r\<in>set rules. enabled r \<and> isArrayIndex (targetModel r))"
  by (simp add: indexTarget_def list_ex_iff)

lemma entriesOrder_plain: "\<forall>k\<in>set ks. \<not> isArrayIndex k \<Longrightarrow> entriesOrder ks = ks"
proof -
  assume a: "\<forall>k\<in>set ks. \<not> isArrayIndex k"
  then have "filter isArrayIndex ks = []" by (simp add: filter_empty_conv)
  moreover have "filter (\<lambda>k. \<not> isArrayIndex k) ks = ks" using a by (simp add: filter_id_conv)
  ultimately show ?thesis by (simp add: entriesOrder_def)
qed

text \<open>With ordinary target names the groups are tried in the order of first encounter.\<close>

lemma matchByRules_plain:
  assumes "\<not> inheritedTarget rules" "\<not> indexTarget rules"
  shows "matchByRules rules ctx =
           Inr (find (\<lambda>m. groupMatches ctx (conditionGroup m rules))
                  (encounterOrder (map targetModel (filter enabled rules))))"
proof -
  have "\<forall>k\<in>set (encounterOrder (map targetModel (filter enabled rules))). \<not> isArrayIndex k"
    using assms(2) by (auto simp: indexTarget_iff set_encounterOrder)
  then show ?thesis using assms(1) by (simp add: matchByRules_eq entriesOrder_plain)
qed

lemma matchByRules_returns: "\<not> inheritedTarget rules \<Longrightarrow> \<exists>res. matchByRules rules ctx = Inr res"
  by (simp add: matchByRules_eq)

lemma groupMatches_skip:
  "\<not> ruleFails ctx r \<Longrightarrow> groupMatches ctx (xs @ r # ys) = groupMatches ctx (xs @ ys)"
  by (simp add: groupMatches_iff)

text \<open>The definitions of the model and of the example inputs, for evaluating both.\<close>

lemmas evalSource =
  matchByRules_def addRule_def Let_def getProperty_def objectPrototypeKeys_def Object_entries_def
  isArrayIndex_def isDigit_def decimalValue_def ruleFails_def
  exampleRule_def contentLength_def toolPresence_def

section \<open>The properties\<close>

text \<open>
  C1, as the code has it. The type dispatch of the inner loop is an \<^verbatim>\<open>if\<close> / \<^verbatim>\<open>else if\<close>
  without a final \<^verbatim>\<open>else\<close>, and the function has no failure for an unrecognised
  \<^verbatim>\<open>ruleType\<close>. A rule whose type is neither \<^verbatim>\<open>content_length\<close> nor \<^verbatim>\<open>tool_presence\<close>
  passes for every context. It drops out of the condition of its group: the inner loop
  gives the same value with and without it, and taking it out of a list in which an
  enabled rule with the same target stands before it does not change the result. If the
  rule is enabled and its target is not a name inherited from \<^verbatim>\<open>Object.prototype\<close>, the
  list of that one rule returns the rule's target. A list that holds such a rule and in
  which no enabled rule targets a name inherited from \<^verbatim>\<open>Object.prototype\<close> returns
  normally, a model or \<^verbatim>\<open>null\<close>.
\<close>

theorem unknown_rule_type_is_skipped:
  assumes "ruleType r \<noteq> ''content_length''" and "ruleType r \<noteq> ''tool_presence''"
  shows "\<not> ruleFails ctx r \<and>
         groupMatches ctx (xs @ r # ys) = groupMatches ctx (xs @ ys) \<and>
         ((\<exists>r'\<in>set xs. enabled r' \<and> targetModel r' = targetModel r) \<longrightarrow>
            matchByRules (xs @ r # ys) ctx = matchByRules (xs @ ys) ctx) \<and>
         (enabled r \<and> targetModel r \<notin> set objectPrototypeKeys \<longrightarrow>
            matchByRules [r] ctx = Inr (Some (targetModel r))) \<and>
         (\<not> inheritedTarget (xs @ r # ys) \<longrightarrow>
            (\<exists>res. matchByRules (xs @ r # ys) ctx = Inr res))"
proof -
  have p: "\<not> ruleFails ctx r" using assms by (simp add: ruleFails_def)
  have g: "groupMatches ctx (xs @ r # ys) = groupMatches ctx (xs @ ys)"
    using p by (rule groupMatches_skip)
  have d: "matchByRules (xs @ r # ys) ctx = matchByRules (xs @ ys) ctx"
    if "\<exists>r'\<in>set xs. enabled r' \<and> targetModel r' = targetModel r"
    using that p by (intro matchByRules_remove) auto
  have s: "matchByRules [r] ctx = Inr (Some (targetModel r))"
    if "enabled r" "targetModel r \<notin> set objectPrototypeKeys"
    using that p by (simp add: matchByRules_single)
  have n: "\<exists>res. matchByRules (xs @ r # ys) ctx = Inr res"
    if "\<not> inheritedTarget (xs @ r # ys)"
    using that by (rule matchByRules_returns)
  show ?thesis using p g d s n by blast
qed

theorem unknown_rule_type_is_skipped_witness:
  "matchByRules
     [exampleRule ''small-model'' ''content_length'' (contentLength 50) True,
      exampleRule ''small-model'' ''regex'' (contentLength 50) True]
     \<lparr>tokenCount = 30, contextHasTools = False\<rparr> =
   matchByRules
     [exampleRule ''small-model'' ''content_length'' (contentLength 50) True]
     \<lparr>tokenCount = 30, contextHasTools = False\<rparr> \<and>
   matchByRules [exampleRule ''small-model'' ''regex'' (contentLength 50) True]
     \<lparr>tokenCount = 30, contextHasTools = False\<rparr> = Inr (Some ''small-model'') \<and>
   \<not> ruleFails \<lparr>tokenCount = 30, contextHasTools = False\<rparr>
       (exampleRule ''small-model'' ''regex'' (contentLength 50) True)"
  using unknown_rule_type_is_skipped
      [of "exampleRule ''small-model'' ''regex'' (contentLength 50) True"
          "\<lparr>tokenCount = 30, contextHasTools = False\<rparr>"
          "[exampleRule ''small-model'' ''content_length'' (contentLength 50) True]" "[]"]
    unknown_rule_type_is_skipped
      [of "exampleRule ''small-model'' ''regex'' (contentLength 50) True"
          "\<lparr>tokenCount = 30, contextHasTools = False\<rparr>" "[]" "[]"]
  by (simp add: exampleRule_def objectPrototypeKeys_def)

text \<open>
  Counterexample to C1 as the spec states it (an unrecognised rule type fails the whole
  evaluation and never silently matches): the only rule has the type \<^verbatim>\<open>regex\<close>, the
  context has 9000 tokens, and the call returns the rule's target model.
\<close>

theorem unknown_rule_type_matches_silently:
  "ruleType (exampleRule ''small-model'' ''regex'' (contentLength 50) True) \<noteq> ''content_length'' \<and>
   ruleType (exampleRule ''small-model'' ''regex'' (contentLength 50) True) \<noteq> ''tool_presence'' \<and>
   enabled (exampleRule ''small-model'' ''regex'' (contentLength 50) True) \<and>
   matchByRules [exampleRule ''small-model'' ''regex'' (contentLength 50) True]
     \<lparr>tokenCount = 9000, contextHasTools = False\<rparr> = Inr (Some ''small-model'')"
  by (simp add: evalSource)

text \<open>
  C2, as the code has it. The payload is read through an unchecked cast and the function
  has no failure for a payload of the wrong shape; a field that is absent reads as
  \<^verbatim>\<open>undefined\<close>. A \<^verbatim>\<open>content_length\<close> rule without \<^verbatim>\<open>maxLength\<close> passes for every context (the
  comparison with \<^verbatim>\<open>undefined\<close> is false), so it drops out of its group's condition:
  taking it out of a list in which an enabled rule with the same target stands before it
  does not change the result, and if it is enabled and its target is not a name inherited
  from \<^verbatim>\<open>Object.prototype\<close>, the list of that one rule returns the rule's target. A
  \<^verbatim>\<open>tool_presence\<close> rule without \<^verbatim>\<open>hasTools\<close> fails for every context, so a list holding it
  enabled never returns its target model. A list that holds such a rule and in which no
  enabled rule targets a name inherited from \<^verbatim>\<open>Object.prototype\<close> returns normally, a
  model or \<^verbatim>\<open>null\<close>.
\<close>

theorem absent_condition_field_is_undefined:
  "(ruleType r = ''content_length'' \<and> maxLength (conditions r) = None \<longrightarrow>
      \<not> ruleFails ctx r \<and>
      (enabled r \<and> targetModel r \<notin> set objectPrototypeKeys \<longrightarrow>
         matchByRules [r] ctx = Inr (Some (targetModel r))) \<and>
      ((\<exists>r'\<in>set xs. enabled r' \<and> targetModel r' = targetModel r) \<longrightarrow>
         matchByRules (xs @ r # ys) ctx = matchByRules (xs @ ys) ctx)) \<and>
   (ruleType r = ''tool_presence'' \<and> hasTools (conditions r) = None \<longrightarrow>
      ruleFails ctx r \<and>
      (enabled r \<longrightarrow> matchByRules (xs @ r # ys) ctx \<noteq> Inr (Some (targetModel r)))) \<and>
   (\<not> inheritedTarget (xs @ r # ys) \<longrightarrow> (\<exists>res. matchByRules (xs @ r # ys) ctx = Inr res))"
proof -
  have cl: "\<not> ruleFails ctx r \<and>
      (enabled r \<and> targetModel r \<notin> set objectPrototypeKeys \<longrightarrow>
         matchByRules [r] ctx = Inr (Some (targetModel r))) \<and>
      ((\<exists>r'\<in>set xs. enabled r' \<and> targetModel r' = targetModel r) \<longrightarrow>
         matchByRules (xs @ r # ys) ctx = matchByRules (xs @ ys) ctx)"
    if t: "ruleType r = ''content_length''" "maxLength (conditions r) = None"
  proof -
    have p: "\<not> ruleFails ctx r" using t by (simp add: ruleFails_def)
    have s: "matchByRules [r] ctx = Inr (Some (targetModel r))"
      if "enabled r" "targetModel r \<notin> set objectPrototypeKeys"
      using that p by (simp add: matchByRules_single)
    have d: "matchByRules (xs @ r # ys) ctx = matchByRules (xs @ ys) ctx"
      if "\<exists>r'\<in>set xs. enabled r' \<and> targetModel r' = targetModel r"
      using that p by (intro matchByRules_remove) auto
    show ?thesis using p s d by blast
  qed
  have tp: "ruleFails ctx r \<and>
      (enabled r \<longrightarrow> matchByRules (xs @ r # ys) ctx \<noteq> Inr (Some (targetModel r)))"
    if t: "ruleType r = ''tool_presence''" "hasTools (conditions r) = None"
  proof -
    have f: "ruleFails ctx r" using t by (simp add: ruleFails_def)
    have "matchByRules (xs @ r # ys) ctx \<noteq> Inr (Some (targetModel r))" if e: "enabled r"
    proof
      assume "matchByRules (xs @ r # ys) ctx = Inr (Some (targetModel r))"
      then have "groupMatches ctx (conditionGroup (targetModel r) (xs @ r # ys))"
        using matchByRules_Some by blast
      then show False using f e by (simp add: groupMatches_conditionGroup)
    qed
    then show ?thesis using f by blast
  qed
  have n: "\<exists>res. matchByRules (xs @ r # ys) ctx = Inr res"
    if "\<not> inheritedTarget (xs @ r # ys)"
    using that by (rule matchByRules_returns)
  show ?thesis using cl tp n by blast
qed

theorem absent_condition_field_is_undefined_witness:
  "matchByRules
     [exampleRule ''small-model'' ''content_length'' (contentLength 50) True,
      exampleRule ''small-model'' ''content_length'' (toolPresence True) True]
     \<lparr>tokenCount = 30, contextHasTools = False\<rparr> =
   matchByRules
     [exampleRule ''small-model'' ''content_length'' (contentLength 50) True]
     \<lparr>tokenCount = 30, contextHasTools = False\<rparr> \<and>
   \<not> ruleFails \<lparr>tokenCount = 30, contextHasTools = False\<rparr>
       (exampleRule ''small-model'' ''content_length'' (toolPresence True) True) \<and>
   ruleFails \<lparr>tokenCount = 30, contextHasTools = False\<rparr>
       (exampleRule ''tool-model'' ''tool_presence'' (contentLength 100) True) \<and>
   matchByRules [exampleRule ''tool-model'' ''tool_presence'' (contentLength 100) True]
     \<lparr>tokenCount = 30, contextHasTools = False\<rparr> \<noteq> Inr (Some ''tool-model'')"
  using absent_condition_field_is_undefined
      [of "exampleRule ''small-model'' ''content_length'' (toolPresence True) True"
          "\<lparr>tokenCount = 30, contextHasTools = False\<rparr>"
          "[exampleRule ''small-model'' ''content_length'' (contentLength 50) True]" "[]"]
    absent_condition_field_is_undefined
      [of "exampleRule ''tool-model'' ''tool_presence'' (contentLength 100) True"
          "\<lparr>tokenCount = 30, contextHasTools = False\<rparr>" "[]" "[]"]
  by (simp add: exampleRule_def contentLength_def toolPresence_def)

text \<open>
  Counterexample to C2 as the spec states it (a payload of the wrong shape surfaces as a
  failure, never as a silent outcome): the spec's own example, a \<^verbatim>\<open>content_length\<close> rule
  with the payload \<^verbatim>\<open>{hasTools: true}\<close>, returns its target model for a context of 9000
  tokens; a \<^verbatim>\<open>tool_presence\<close> rule with the payload \<^verbatim>\<open>{maxLength: 100}\<close> returns \<^verbatim>\<open>null\<close>.
\<close>

theorem malformed_conditions_raise_nothing:
  "ruleType (exampleRule ''small-model'' ''content_length'' (toolPresence True) True) =
     ''content_length'' \<and>
   maxLength (conditions (exampleRule ''small-model'' ''content_length'' (toolPresence True) True)) =
     None \<and>
   enabled (exampleRule ''small-model'' ''content_length'' (toolPresence True) True) \<and>
   matchByRules [exampleRule ''small-model'' ''content_length'' (toolPresence True) True]
     \<lparr>tokenCount = 9000, contextHasTools = False\<rparr> = Inr (Some ''small-model'') \<and>
   matchByRules [exampleRule ''tool-model'' ''tool_presence'' (contentLength 100) True]
     \<lparr>tokenCount = 50, contextHasTools = True\<rparr> = Inr None"
  by (simp add: evalSource)

text \<open>
  C3, as the code has it. When no enabled rule targets an array index or an inherited
  name, the groups are tried in the order in which each distinct target model is first
  encountered, and the result is the model of the first group in that order whose rules
  all pass. So when group \<open>a\<close> is encountered before group \<open>b\<close> and \<open>a\<close> fully matches, the
  result is never \<open>b\<close>; and it is \<open>a\<close> when \<open>a\<close> fully matches and no group encountered
  before \<open>a\<close> does.
\<close>

theorem first_match_in_encounter_order:
  assumes "\<not> inheritedTarget rules" and "\<not> indexTarget rules"
  shows "matchByRules rules ctx =
           Inr (find (\<lambda>m. groupMatches ctx (conditionGroup m rules))
                  (encounterOrder (map targetModel (filter enabled rules)))) \<and>
         (\<forall>a b. encounteredBefore a b rules \<and> groupMatches ctx (conditionGroup a rules) \<longrightarrow>
            matchByRules rules ctx \<noteq> Inr (Some b)) \<and>
         (\<forall>a. a \<in> set (map targetModel (filter enabled rules)) \<and>
              groupMatches ctx (conditionGroup a rules) \<and>
              (\<forall>c. encounteredBefore c a rules \<longrightarrow> \<not> groupMatches ctx (conditionGroup c rules)) \<longrightarrow>
            matchByRules rules ctx = Inr (Some a))"
proof -
  let ?P = "\<lambda>m. groupMatches ctx (conditionGroup m rules)"
  let ?ks = "map targetModel (filter enabled rules)"
  have m: "matchByRules rules ctx = Inr (find ?P (encounterOrder ?ks))"
    using assms by (rule matchByRules_plain)
  then have m': "matchByRules rules ctx = Inr (find ?P ?ks)"
    by (simp only: find_encounterOrder)
  have never: "matchByRules rules ctx \<noteq> Inr (Some b)"
    if "encounteredBefore a b rules" "?P a" for a b
  proof -
    have "a \<in> set (takeWhile (\<lambda>k. k \<noteq> b) ?ks)"
      using that(1) by (simp add: encounteredBefore_def)
    then have "find ?P ?ks \<noteq> Some b" using that(2) by (rule find_not_later)
    then show ?thesis using m' by simp
  qed
  have first: "matchByRules rules ctx = Inr (Some a)"
    if "a \<in> set ?ks" "?P a" "\<forall>c. encounteredBefore c a rules \<longrightarrow> \<not> ?P c" for a
  proof -
    have "find ?P ?ks = Some a"
    proof (rule find_first)
      show "a \<in> set ?ks" by (rule that(1))
      show "?P a" by (rule that(2))
      show "\<not> ?P c" if "c \<in> set (takeWhile (\<lambda>k. k \<noteq> a) ?ks)" for c
        using that \<open>a \<in> set ?ks\<close> \<open>\<forall>c. encounteredBefore c a rules \<longrightarrow> \<not> ?P c\<close>
        by (simp add: encounteredBefore_def)
    qed
    then show ?thesis using m' by simp
  qed
  show ?thesis using m never first by blast
qed

theorem first_match_in_encounter_order_witness:
  "matchByRules
     [exampleRule ''small-model'' ''content_length'' (contentLength 50) True,
      exampleRule ''large-model'' ''content_length'' (contentLength 500) True]
     \<lparr>tokenCount = 30, contextHasTools = False\<rparr> = Inr (Some ''small-model'') \<and>
   matchByRules
     [exampleRule ''small-model'' ''content_length'' (contentLength 50) True,
      exampleRule ''large-model'' ''content_length'' (contentLength 500) True]
     \<lparr>tokenCount = 30, contextHasTools = False\<rparr> \<noteq> Inr (Some ''large-model'') \<and>
   encounteredBefore ''small-model'' ''large-model''
     [exampleRule ''small-model'' ''content_length'' (contentLength 50) True,
      exampleRule ''large-model'' ''content_length'' (contentLength 500) True] \<and>
   groupMatches \<lparr>tokenCount = 30, contextHasTools = False\<rparr>
     (conditionGroup ''small-model''
        [exampleRule ''small-model'' ''content_length'' (contentLength 50) True,
         exampleRule ''large-model'' ''content_length'' (contentLength 500) True]) \<and>
   groupMatches \<lparr>tokenCount = 30, contextHasTools = False\<rparr>
     (conditionGroup ''large-model''
        [exampleRule ''small-model'' ''content_length'' (contentLength 50) True,
         exampleRule ''large-model'' ''content_length'' (contentLength 500) True])"
proof -
  let ?rules = "[exampleRule ''small-model'' ''content_length'' (contentLength 50) True,
                 exampleRule ''large-model'' ''content_length'' (contentLength 500) True]"
  let ?ctx = "\<lparr>tokenCount = 30, contextHasTools = False\<rparr>"
  have plain: "\<not> inheritedTarget ?rules"
    by (simp add: inheritedTarget_def exampleRule_def objectPrototypeKeys_def)
  have noindex: "\<not> indexTarget ?rules"
    by (simp add: indexTarget_def exampleRule_def isArrayIndex_def isDigit_def)
  have before: "encounteredBefore ''small-model'' ''large-model'' ?rules"
    by (simp add: encounteredBefore_def exampleRule_def)
  have first: "\<forall>c. \<not> encounteredBefore c ''small-model'' ?rules"
    by (simp add: encounteredBefore_def exampleRule_def)
  have present: "''small-model'' \<in> set (map targetModel (filter enabled ?rules))"
    by (simp add: exampleRule_def)
  have small: "groupMatches ?ctx (conditionGroup ''small-model'' ?rules)"
    by (simp add: conditionGroup_def exampleRule_def contentLength_def ruleFails_def)
  have large: "groupMatches ?ctx (conditionGroup ''large-model'' ?rules)"
    by (simp add: conditionGroup_def exampleRule_def contentLength_def ruleFails_def)
  note order = first_match_in_encounter_order [OF plain noindex, of ?ctx]
  have never: "matchByRules ?rules ?ctx \<noteq> Inr (Some ''large-model'')"
    using order before small by blast
  have result: "matchByRules ?rules ?ctx = Inr (Some ''small-model'')"
    using order present small first by blast
  show ?thesis using result never before small large by simp
qed

text \<open>
  Counterexample to C3 as the spec states it (groups are visited in the order of first
  encounter): the rules target \<^verbatim>\<open>"2"\<close> and then \<^verbatim>\<open>"1"\<close>, both groups fully match, and the
  call returns \<^verbatim>\<open>"1"\<close>, because \<^verbatim>\<open>Object.entries\<close> lists array-index keys first, in
  ascending numeric order.
\<close>

theorem array_index_targets_come_first:
  "matchByRules
     [exampleRule ''2'' ''content_length'' (contentLength 100) True,
      exampleRule ''1'' ''content_length'' (contentLength 100) True]
     \<lparr>tokenCount = 50, contextHasTools = False\<rparr> = Inr (Some ''1'') \<and>
   encounteredBefore ''2'' ''1''
     [exampleRule ''2'' ''content_length'' (contentLength 100) True,
      exampleRule ''1'' ''content_length'' (contentLength 100) True] \<and>
   groupMatches \<lparr>tokenCount = 50, contextHasTools = False\<rparr>
     (conditionGroup ''2''
        [exampleRule ''2'' ''content_length'' (contentLength 100) True,
         exampleRule ''1'' ''content_length'' (contentLength 100) True]) \<and>
   groupMatches \<lparr>tokenCount = 50, contextHasTools = False\<rparr>
     (conditionGroup ''1''
        [exampleRule ''2'' ''content_length'' (contentLength 100) True,
         exampleRule ''1'' ''content_length'' (contentLength 100) True])"
  by (simp add: evalSource encounteredBefore_def conditionGroup_def)

text \<open>
  C4. The target model of a group is returned only if every enabled rule of that target
  passes: a well-typed \<^verbatim>\<open>content_length\<close> rule of the group has
  \<^verbatim>\<open>tokenCount <= maxLength\<close> and a well-typed \<^verbatim>\<open>tool_presence\<close> rule has the context's
  \<^verbatim>\<open>hasTools\<close>. The inner loop computes the conjunction of the rules' tests, and it stops
  at the first failing rule: whatever follows that rule, the group does not match. The
  witness holds the spec's example: the group of \<^verbatim>\<open>content_length{maxLength:100}\<close> and
  \<^verbatim>\<open>tool_presence{hasTools:true}\<close> fails for \<^verbatim>\<open>{tokenCount:50, hasTools:false}\<close>, where the
  first rule passes and the second fails.
\<close>

theorem group_condition_is_conjunction:
  "(matchByRules rules ctx = Inr (Some m) \<longrightarrow>
      (\<forall>r\<in>set rules. enabled r \<and> targetModel r = m \<longrightarrow>
         \<not> ruleFails ctx r \<and>
         (\<forall>n. ruleType r = ''content_length'' \<and> maxLength (conditions r) = Some n \<longrightarrow>
              tokenCount ctx \<le> n) \<and>
         (\<forall>b. ruleType r = ''tool_presence'' \<and> hasTools (conditions r) = Some b \<longrightarrow>
              contextHasTools ctx = b))) \<and>
   groupMatches ctx g = (\<forall>r\<in>set g. \<not> ruleFails ctx r) \<and>
   (ruleFails ctx r' \<longrightarrow> \<not> groupMatches ctx (xs @ r' # ys))"
proof -
  have sel: "\<not> ruleFails ctx r \<and>
         (\<forall>n. ruleType r = ''content_length'' \<and> maxLength (conditions r) = Some n \<longrightarrow>
              tokenCount ctx \<le> n) \<and>
         (\<forall>b. ruleType r = ''tool_presence'' \<and> hasTools (conditions r) = Some b \<longrightarrow>
              contextHasTools ctx = b)"
    if res: "matchByRules rules ctx = Inr (Some m)"
      and r: "r \<in> set rules" "enabled r" "targetModel r = m" for r
  proof -
    have "groupMatches ctx (conditionGroup m rules)"
      using matchByRules_Some [OF res] by simp
    then have p: "\<not> ruleFails ctx r"
      using r by (simp add: groupMatches_conditionGroup)
    then show ?thesis by (auto simp: ruleFails_def split: if_splits)
  qed
  have conj: "groupMatches ctx g = (\<forall>r\<in>set g. \<not> ruleFails ctx r)"
    by (rule groupMatches_iff)
  have stop: "\<not> groupMatches ctx (xs @ r' # ys)" if "ruleFails ctx r'"
    using that by (auto simp: groupMatches_iff)
  show ?thesis using sel conj stop by blast
qed

theorem group_condition_is_conjunction_witness:
  "matchByRules
     [exampleRule ''tool-model'' ''content_length'' (contentLength 100) True,
      exampleRule ''tool-model'' ''tool_presence'' (toolPresence True) True]
     \<lparr>tokenCount = 50, contextHasTools = True\<rparr> = Inr (Some ''tool-model'') \<and>
   \<not> ruleFails \<lparr>tokenCount = 50, contextHasTools = True\<rparr>
       (exampleRule ''tool-model'' ''tool_presence'' (toolPresence True) True) \<and>
   \<not> ruleFails \<lparr>tokenCount = 50, contextHasTools = False\<rparr>
       (exampleRule ''tool-model'' ''content_length'' (contentLength 100) True) \<and>
   ruleFails \<lparr>tokenCount = 50, contextHasTools = False\<rparr>
       (exampleRule ''tool-model'' ''tool_presence'' (toolPresence True) True) \<and>
   \<not> groupMatches \<lparr>tokenCount = 50, contextHasTools = False\<rparr>
       [exampleRule ''tool-model'' ''content_length'' (contentLength 100) True,
        exampleRule ''tool-model'' ''tool_presence'' (toolPresence True) True] \<and>
   matchByRules
     [exampleRule ''tool-model'' ''content_length'' (contentLength 100) True,
      exampleRule ''tool-model'' ''tool_presence'' (toolPresence True) True]
     \<lparr>tokenCount = 50, contextHasTools = False\<rparr> = Inr None"
proof -
  let ?len = "exampleRule ''tool-model'' ''content_length'' (contentLength 100) True"
  let ?tools = "exampleRule ''tool-model'' ''tool_presence'' (toolPresence True) True"
  let ?with = "\<lparr>tokenCount = 50, contextHasTools = True\<rparr>"
  let ?without = "\<lparr>tokenCount = 50, contextHasTools = False\<rparr>"
  have selected: "matchByRules [?len, ?tools] ?with = Inr (Some ''tool-model'')"
    by (simp add: evalSource)
  have member: "?tools \<in> set [?len, ?tools]" "enabled ?tools"
    "targetModel ?tools = ''tool-model''"
    by (simp_all add: exampleRule_def)
  have passes: "\<not> ruleFails ?with ?tools"
    using group_condition_is_conjunction [of "[?len, ?tools]" ?with "''tool-model''"]
      selected member by blast
  have first: "\<not> ruleFails ?without ?len"
    by (simp add: ruleFails_def exampleRule_def contentLength_def)
  have second: "ruleFails ?without ?tools"
    by (simp add: ruleFails_def exampleRule_def toolPresence_def)
  have "\<not> groupMatches ?without ([?len] @ ?tools # [])"
    using group_condition_is_conjunction [of _ ?without _ _ ?tools "[?len]" "[]"] second
    by blast
  then have group: "\<not> groupMatches ?without [?len, ?tools]" by simp
  have none: "matchByRules [?len, ?tools] ?without = Inr None"
    by (simp add: evalSource)
  show ?thesis using selected passes first second group none by simp
qed

text \<open>
  C5. A \<^verbatim>\<open>content_length\<close> rule with a well-typed payload \<^verbatim>\<open>{maxLength: n}\<close> passes exactly
  when \<^verbatim>\<open>context.tokenCount <= n\<close>: the bound is inclusive. The same is said of the inner
  loop on the rule alone and, for an enabled rule with an ordinary target name, of
  \<open>matchByRules\<close> on the list of that one rule. The witness holds the boundary: with
  \<^verbatim>\<open>maxLength\<close> 100, token count 100 matches and 101 does not.
\<close>

theorem content_length_inclusive_bound:
  assumes "ruleType r = ''content_length''" and "maxLength (conditions r) = Some n"
  shows "ruleFails ctx r = (\<not> tokenCount ctx \<le> n) \<and>
         groupMatches ctx [r] = (tokenCount ctx \<le> n) \<and>
         (enabled r \<and> targetModel r \<notin> set objectPrototypeKeys \<longrightarrow>
            matchByRules [r] ctx =
              Inr (if tokenCount ctx \<le> n then Some (targetModel r) else None))"
proof -
  have f: "ruleFails ctx r = (\<not> tokenCount ctx \<le> n)"
    using assms by (simp add: ruleFails_def not_le)
  then show ?thesis by (simp add: matchByRules_single)
qed

theorem content_length_inclusive_bound_witness:
  "matchByRules [exampleRule ''small-model'' ''content_length'' (contentLength 100) True]
     \<lparr>tokenCount = 100, contextHasTools = False\<rparr> = Inr (Some ''small-model'') \<and>
   matchByRules [exampleRule ''small-model'' ''content_length'' (contentLength 100) True]
     \<lparr>tokenCount = 101, contextHasTools = False\<rparr> = Inr None \<and>
   \<not> ruleFails \<lparr>tokenCount = 100, contextHasTools = False\<rparr>
       (exampleRule ''small-model'' ''content_length'' (contentLength 100) True) \<and>
   ruleFails \<lparr>tokenCount = 101, contextHasTools = False\<rparr>
       (exampleRule ''small-model'' ''content_length'' (contentLength 100) True)"
  using content_length_inclusive_bound
      [of "exampleRule ''small-model'' ''content_length'' (contentLength 100) True" 100
          "\<lparr>tokenCount = 100, contextHasTools = False\<rparr>"]
    content_length_inclusive_bound
      [of "exampleRule ''small-model'' ''content_length'' (contentLength 100) True" 100
          "\<lparr>tokenCount = 101, contextHasTools = False\<rparr>"]
  by (simp add: exampleRule_def contentLength_def objectPrototypeKeys_def)

text \<open>
  C6. A \<^verbatim>\<open>tool_presence\<close> rule with a well-typed payload \<^verbatim>\<open>{hasTools: b}\<close> passes exactly when
  \<^verbatim>\<open>context.hasTools\<close> equals \<open>b\<close>.
\<close>

theorem tool_presence_equality:
  assumes "ruleType r = ''tool_presence''" and "hasTools (conditions r) = Some b"
  shows "ruleFails ctx r = (contextHasTools ctx \<noteq> b) \<and>
         groupMatches ctx [r] = (contextHasTools ctx = b) \<and>
         (enabled r \<and> targetModel r \<notin> set objectPrototypeKeys \<longrightarrow>
            matchByRules [r] ctx =
              Inr (if contextHasTools ctx = b then Some (targetModel r) else None))"
proof -
  have f: "ruleFails ctx r = (contextHasTools ctx \<noteq> b)"
    using assms by (simp add: ruleFails_def)
  then show ?thesis by (simp add: matchByRules_single)
qed

theorem tool_presence_equality_witness:
  "matchByRules [exampleRule ''tool-model'' ''tool_presence'' (toolPresence True) True]
     \<lparr>tokenCount = 50, contextHasTools = True\<rparr> = Inr (Some ''tool-model'') \<and>
   matchByRules [exampleRule ''tool-model'' ''tool_presence'' (toolPresence True) True]
     \<lparr>tokenCount = 50, contextHasTools = False\<rparr> = Inr None \<and>
   matchByRules [exampleRule ''plain-model'' ''tool_presence'' (toolPresence False) True]
     \<lparr>tokenCount = 50, contextHasTools = False\<rparr> = Inr (Some ''plain-model'')"
  using tool_presence_equality
      [of "exampleRule ''tool-model'' ''tool_presence'' (toolPresence True) True" True
          "\<lparr>tokenCount = 50, contextHasTools = True\<rparr>"]
    tool_presence_equality
      [of "exampleRule ''tool-model'' ''tool_presence'' (toolPresence True) True" True
          "\<lparr>tokenCount = 50, contextHasTools = False\<rparr>"]
    tool_presence_equality
      [of "exampleRule ''plain-model'' ''tool_presence'' (toolPresence False) True" False
          "\<lparr>tokenCount = 50, contextHasTools = False\<rparr>"]
  by (simp add: exampleRule_def toolPresence_def objectPrototypeKeys_def)

text \<open>
  C7. Disabled rules never affect the result: \<open>matchByRules\<close> of a rule list equals
  \<open>matchByRules\<close> of its sublist of enabled rules. For the empty list, and for a list
  whose rules are all disabled, the result is the no-match value \<^verbatim>\<open>null\<close>.
\<close>

theorem disabled_rules_never_affect:
  "matchByRules rules ctx = matchByRules (filter enabled rules) ctx \<and>
   matchByRules [] ctx = Inr None \<and>
   ((\<forall>r\<in>set rules. \<not> enabled r) \<longrightarrow> matchByRules rules ctx = Inr None)"
proof -
  have a: "matchByRules rules ctx = matchByRules (filter enabled rules) ctx"
    by (simp only: matchByRules_eq inheritedTarget_filter conditionGroup_filter filter_filter
        conj_absorb)
  have b: "matchByRules [] ctx = Inr None"
    by (simp add: matchByRules_def Object_entries_def)
  have c: "matchByRules rules ctx = Inr None" if "\<forall>r\<in>set rules. \<not> enabled r"
  proof -
    have "filter enabled rules = []" using that by (simp add: filter_empty_conv)
    then show ?thesis using a b by simp
  qed
  show ?thesis using a b c by blast
qed

theorem disabled_rules_never_affect_witness:
  "matchByRules
     [exampleRule ''small-model'' ''content_length'' (contentLength 50) False,
      exampleRule ''large-model'' ''content_length'' (contentLength 500) False]
     \<lparr>tokenCount = 30, contextHasTools = False\<rparr> = Inr None"
  using disabled_rules_never_affect
    [of "[exampleRule ''small-model'' ''content_length'' (contentLength 50) False,
          exampleRule ''large-model'' ''content_length'' (contentLength 500) False]"
        "\<lparr>tokenCount = 30, contextHasTools = False\<rparr>"]
  by (simp add: exampleRule_def)

text \<open>
  C8. Grouping is stable. A condition group is made of enabled rules (the first loop
  skips a disabled rule before it reads its target), so the two inputs are compared on
  their enabled rules: when these are the same rules up to order, and the distinct target
  models are first encountered in the same order, both inputs give the same result. This
  covers every reordering of rules within their groups that keeps each group's first
  encounter in place.
\<close>

theorem grouping_is_stable:
  assumes "mset (filter enabled rules) = mset (filter enabled rules')"
    and "encounterOrder (map targetModel (filter enabled rules)) =
         encounterOrder (map targetModel (filter enabled rules'))"
  shows "matchByRules rules ctx = matchByRules rules' ctx"
proof (rule matchByRules_cong)
  have s: "set (filter enabled rules) = set (filter enabled rules')"
    using assms(1) by (rule mset_eq_setD)
  then have s': "\<And>r. (r \<in> set rules \<and> enabled r) = (r \<in> set rules' \<and> enabled r)"
    by auto
  show "inheritedTarget rules = inheritedTarget rules'"
    unfolding inheritedTarget_iff using s' by blast
  show "encounterOrder (map targetModel (filter enabled rules)) =
        encounterOrder (map targetModel (filter enabled rules'))"
    by (rule assms(2))
  show "groupMatches ctx (conditionGroup m rules) = groupMatches ctx (conditionGroup m rules')"
    for m
    unfolding groupMatches_conditionGroup using s' by blast
qed

theorem grouping_is_stable_witness:
  "matchByRules
     [exampleRule ''small-model'' ''content_length'' (contentLength 50) True,
      exampleRule ''large-model'' ''content_length'' (contentLength 500) True,
      exampleRule ''small-model'' ''tool_presence'' (toolPresence False) True,
      exampleRule ''small-model'' ''content_length'' (contentLength 40) True]
     \<lparr>tokenCount = 45, contextHasTools = False\<rparr> =
   matchByRules
     [exampleRule ''small-model'' ''content_length'' (contentLength 50) True,
      exampleRule ''large-model'' ''content_length'' (contentLength 500) True,
      exampleRule ''small-model'' ''content_length'' (contentLength 40) True,
      exampleRule ''small-model'' ''tool_presence'' (toolPresence False) True]
     \<lparr>tokenCount = 45, contextHasTools = False\<rparr> \<and>
   matchByRules
     [exampleRule ''small-model'' ''content_length'' (contentLength 50) True,
      exampleRule ''large-model'' ''content_length'' (contentLength 500) True,
      exampleRule ''small-model'' ''content_length'' (contentLength 40) True,
      exampleRule ''small-model'' ''tool_presence'' (toolPresence False) True]
     \<lparr>tokenCount = 45, contextHasTools = False\<rparr> = Inr (Some ''large-model'')"
proof -
  let ?a = "exampleRule ''small-model'' ''content_length'' (contentLength 50) True"
  let ?b = "exampleRule ''large-model'' ''content_length'' (contentLength 500) True"
  let ?c = "exampleRule ''small-model'' ''tool_presence'' (toolPresence False) True"
  let ?d = "exampleRule ''small-model'' ''content_length'' (contentLength 40) True"
  let ?ctx = "\<lparr>tokenCount = 45, contextHasTools = False\<rparr>"
  have en: "enabled ?a" "enabled ?b" "enabled ?c" "enabled ?d"
    by (simp_all add: exampleRule_def)
  have tm: "targetModel ?a = ''small-model''" "targetModel ?b = ''large-model''"
    "targetModel ?c = ''small-model''" "targetModel ?d = ''small-model''"
    by (simp_all add: exampleRule_def)
  have same: "mset (filter enabled [?a, ?b, ?c, ?d]) = mset (filter enabled [?a, ?b, ?d, ?c])"
    using en by simp
  have order: "encounterOrder (map targetModel (filter enabled [?a, ?b, ?c, ?d])) =
               encounterOrder (map targetModel (filter enabled [?a, ?b, ?d, ?c]))"
    using en tm by simp
  have eq: "matchByRules [?a, ?b, ?c, ?d] ?ctx = matchByRules [?a, ?b, ?d, ?c] ?ctx"
    using same order by (rule grouping_is_stable)
  have val: "matchByRules [?a, ?b, ?d, ?c] ?ctx = Inr (Some ''large-model'')"
    by (simp add: matchByRules_eq inheritedTarget_def entriesOrder_def conditionGroup_def
        objectPrototypeKeys_def isArrayIndex_def isDigit_def ruleFails_def exampleRule_def
        contentLength_def toolPresence_def)
  show ?thesis using eq val by simp
qed

text \<open>
  C9. The claim says that every call results in \<^verbatim>\<open>null\<close> or in the target model of an
  enabled rule. A value that is returned is indeed such a model (lemma
  \<open>matchByRules_Some\<close>), but a call need not return: for an enabled rule whose target model
  is \<^verbatim>\<open>"constructor"\<close> the read \<^verbatim>\<open>rulesByModel[model]\<close> finds the inherited function, no array
  is created, and \<^verbatim>\<open>push\<close> throws a TypeError.
\<close>

theorem inherited_target_name_throws:
  "matchByRules [exampleRule ''constructor'' ''content_length'' (contentLength 100) True]
     \<lparr>tokenCount = 50, contextHasTools = False\<rparr> = Inl TypeError"
  by (simp add: evalSource)

text \<open>
  C10. Duplicates do not matter: when the rule \<open>r\<close> occurs in the list already, a further
  copy of \<open>r\<close> at any later position leaves the result unchanged. Here \<open>xs\<close> is the part of
  the list before the copy, which holds an occurrence of \<open>r\<close>, and \<open>ys\<close> the part after it.
\<close>

theorem duplicate_insensitive:
  assumes "r \<in> set xs"
  shows "matchByRules (xs @ r # ys) ctx = matchByRules (xs @ ys) ctx"
  using assms by (intro matchByRules_remove) auto

theorem duplicate_insensitive_witness:
  "matchByRules
     [exampleRule ''small-model'' ''content_length'' (contentLength 50) True,
      exampleRule ''large-model'' ''content_length'' (contentLength 500) True,
      exampleRule ''small-model'' ''content_length'' (contentLength 50) True]
     \<lparr>tokenCount = 200, contextHasTools = False\<rparr> =
   matchByRules
     [exampleRule ''small-model'' ''content_length'' (contentLength 50) True,
      exampleRule ''large-model'' ''content_length'' (contentLength 500) True]
     \<lparr>tokenCount = 200, contextHasTools = False\<rparr>"
  using duplicate_insensitive
      [of "exampleRule ''small-model'' ''content_length'' (contentLength 50) True"
          "[exampleRule ''small-model'' ''content_length'' (contentLength 50) True,
            exampleRule ''large-model'' ''content_length'' (contentLength 500) True]"
          "[]" "\<lparr>tokenCount = 200, contextHasTools = False\<rparr>"]
  by simp

end
